theory Spec2Isabelle
  imports Main "HOL-Library.Sublist"
begin

section \<open>Values of the host language\<close>

text \<open>
  JavaScript strings are modelled as \<^typ>\<open>string\<close>. A cell of an \<open>ExcelRow\<close> has the type
  \<open>string | number | Date | undefined\<close> (src/src/types.ts). Numbers are modelled by
  \<^typ>\<open>int\<close>: the integer-valued numbers, whose \<open>toString()\<close> is the plain decimal numeral.
  A \<open>Date\<close> is its time value; the text \<open>toLocaleDateString()\<close> makes of it depends on
  the host's locale and is a parameter of the functions that call it.
\<close>

type_synonym jsdate = int

datatype cell = Text string | Num int | DateV jsdate | Undefined

text \<open>\<open>Number.prototype.toString()\<close> on an integer-valued number.\<close>

function natToString :: "nat \<Rightarrow> string" where
  "natToString n =
     (if n < 10 then [''0123456789'' ! n]
      else natToString (n div 10) @ [''0123456789'' ! (n mod 10)])"
  by pat_completeness auto
termination
  by (relation "measure id") auto

declare natToString.simps [simp del]

definition intToString :: "int \<Rightarrow> string" where
  "intToString i = (if i < 0 then CHR ''-'' # natToString (nat (- i)) else natToString (nat i))"

text \<open>The phone argument of \<open>sendMessage\<close> and \<open>formatPhoneNumber\<close>: \<open>string | number\<close>.\<close>

datatype phone_value = PString string | PNumber int

fun phoneToString :: "phone_value \<Rightarrow> string" where
  "phoneToString (PString s) = s"
| "phoneToString (PNumber n) = intToString n"

section \<open>formatPhoneNumber\<close>

text \<open>
  \<open>phone.toString().replace(/\D/g, '')\<close>: the class \<open>\D\<close> is every character other than
  \<open>0\<close> .. \<open>9\<close> ; the global replace walks the string and puts the
  replacement in the place of every match.
\<close>

definition isDigit :: "char \<Rightarrow> bool" where
  "isDigit c = (c \<in> set ''0123456789'')"

primrec replaceNonDigits :: "string \<Rightarrow> string \<Rightarrow> string" where
  "replaceNonDigits repl [] = []"
| "replaceNonDigits repl (c # cs) =
     (if \<not> isDigit c then repl else [c]) @ replaceNonDigits repl cs"

definition formatPhoneNumber :: "phone_value \<Rightarrow> string" where
  "formatPhoneNumber phone =
     (let cleaned = replaceNonDigits [] (phoneToString phone)
      in cleaned @ ''@c.us'')"

section \<open>formatMessage\<close>

text \<open>
  \<open>String.prototype.split\<close> with a string separator scans from the left; where the
  separator matches, the piece collected so far is closed and the scan goes on behind the
  match, so matches never overlap. The empty separator cuts between all code units.
  \<open>splitFrom sep cur s\<close> is the scan with \<open>cur\<close> the piece being collected.
\<close>

function splitFrom :: "string \<Rightarrow> string \<Rightarrow> string \<Rightarrow> string list" where
  "splitFrom sep cur [] = [cur]"
| "splitFrom sep cur (c # cs) =
     (if sep \<noteq> [] \<and> prefix sep (c # cs)
      then cur # splitFrom sep [] (drop (length sep) (c # cs))
      else splitFrom sep (cur @ [c]) cs)"
  by pat_completeness auto
termination
  by (relation "measure (\<lambda>(sep, cur, s). length s)") (auto simp: neq_Nil_conv)

definition split_str :: "string \<Rightarrow> string \<Rightarrow> string list" where
  "split_str sep s = (if sep = [] then map (\<lambda>c. [c]) s else splitFrom sep [] s)"

fun join_str :: "string \<Rightarrow> string list \<Rightarrow> string" where
  "join_str v [] = []"
| "join_str v [p] = p"
| "join_str v (p # q # ps) = p @ v @ join_str v (q # ps)"

text \<open>
  A row is the list of its own properties in the order \<open>Object.keys\<close> enumerates them.
  \<open>rowData[column]\<close> is \<open>undefined\<close> for a name the row does not have.
\<close>

type_synonym ExcelRow = "(string \<times> cell) list"

definition cellAt :: "ExcelRow \<Rightarrow> string \<Rightarrow> cell" where
  "cellAt row column = (case map_of row column of None \<Rightarrow> Undefined | Some v \<Rightarrow> v)"

definition placeholder :: "string \<Rightarrow> string" where
  "placeholder column = ''{'' @ column @ ''}''"

text \<open>The text one column contributes: the body of the \<open>forEach\<close> callback before the replacement.\<close>

fun cellValue :: "(jsdate \<Rightarrow> string) \<Rightarrow> cell \<Rightarrow> string" where
  "cellValue toLocaleDateString Undefined = []"
| "cellValue toLocaleDateString (DateV d) = toLocaleDateString d"
| "cellValue toLocaleDateString (Text s) = s"
| "cellValue toLocaleDateString (Num n) = intToString n"

definition substituteColumn :: "(jsdate \<Rightarrow> string) \<Rightarrow> ExcelRow \<Rightarrow> string \<Rightarrow> string \<Rightarrow> string" where
  "substituteColumn toLocaleDateString rowData column message =
     (let value = cellValue toLocaleDateString (cellAt rowData column)
      in join_str value (split_str (placeholder column) message))"

definition formatMessage :: "(jsdate \<Rightarrow> string) \<Rightarrow> string \<Rightarrow> ExcelRow \<Rightarrow> string" where
  "formatMessage toLocaleDateString template rowData =
     fold (substituteColumn toLocaleDateString rowData) (map fst rowData) template"

text \<open>
  The reading of a template the specification describes: literal text and placeholders
  \<open>{ColumnName}\<close>, every placeholder of a column of the row replaced by the column's display
  text in one pass, every other placeholder kept as it is written.
\<close>

datatype token = Lit string | Ph string

fun token_text :: "token \<Rightarrow> string" where
  "token_text (Lit s) = s"
| "token_text (Ph n) = placeholder n"

definition template_text :: "token list \<Rightarrow> string" where
  "template_text ts = concat (map token_text ts)"

fun render_token :: "(jsdate \<Rightarrow> string) \<Rightarrow> ExcelRow \<Rightarrow> token \<Rightarrow> string" where
  "render_token loc row (Lit s) = s"
| "render_token loc row (Ph n) =
     (case map_of row n of None \<Rightarrow> placeholder n | Some v \<Rightarrow> cellValue loc v)"

definition render_spec :: "(jsdate \<Rightarrow> string) \<Rightarrow> ExcelRow \<Rightarrow> token list \<Rightarrow> string" where
  "render_spec loc row ts = concat (map (render_token loc row) ts)"

text \<open>
  A well-formed template: no literal piece holds an opening brace and no placeholder name
  holds a brace.
\<close>

fun wf_token :: "token \<Rightarrow> bool" where
  "wf_token (Lit s) = (CHR ''{'' \<notin> set s)"
| "wf_token (Ph n) = (CHR ''{'' \<notin> set n \<and> CHR ''}'' \<notin> set n)"

definition wf_row :: "(jsdate \<Rightarrow> string) \<Rightarrow> ExcelRow \<Rightarrow> bool" where
  "wf_row loc row =
     list_all (\<lambda>(k, v). CHR ''}'' \<notin> set k \<and> CHR ''{'' \<notin> set (cellValue loc v)) row"

section \<open>The campaign engine\<close>

text \<open>
  What a promise of \<open>client.sendMessage\<close> rejects with, as the \<open>catch\<close> of \<open>sendMessage\<close>
  tells it apart: an \<open>Error\<close> with its message, or any other thrown value.
\<close>


datatype js_error = Error string | NonError

text \<open>
  The records of src/src/types.ts and of \<open>SendMessagesResults\<close>. An optional \<open>error\<close> field is
  an option. The field \<open>total\<close> is named \<open>total_rows\<close> here.
\<close>

datatype status = Success | Failed

datatype progress_status = PSending | PSuccess | PFailed

record MessageResult =
  m_phone :: string
  m_status :: status
  m_error :: "string option"

record Detail =
  d_index :: nat
  d_phone :: string
  d_status :: status
  d_error :: "string option"

record ProgressData =
  current :: nat
  p_total :: nat
  p_phone :: string
  p_status :: progress_status
  p_error :: "string option"

record SendMessagesResults =
  total_rows :: nat
  success :: nat
  failed :: nat
  details :: "Detail list"

text \<open>
  The client is the external transport. It is modelled as a state machine over a connection
  state of any type \<open>'s\<close>: a send, given the state, the chat id and the message, resolves
  (\<open>None\<close>) or rejects with an error, and leaves a new state. The field \<open>this.client\<close> is
  \<open>null\<close> until \<open>initialize\<close> has run: a \<open>client option\<close>.
\<close>

type_synonym 's client = "'s \<Rightarrow> string \<Rightarrow> string \<Rightarrow> js_error option \<times> 's"

text \<open>
  What a run does besides computing its result, in the order it does it: the call of
  \<open>formatMessage\<close> (with the message it returned), a call of the progress callback, the call of
  \<open>this.sendMessage\<close>, the call of \<open>this.client.sendMessage\<close> with the way it settled, and the
  awaited \<open>setTimeout\<close> with its milliseconds. The loop tags every event with the index of the
  row it is working on.
\<close>

datatype event =
    FormatMessage string
  | Progress ProgressData
  | SendMessage phone_value string
  | ClientSend string string "js_error option"
  | Delay int

record 's run_state =
  results :: SendMessagesResults
  conn :: 's
  trace :: "(nat \<times> event) list"

text \<open>
  \<open>sendMessage\<close>: the body of the \<open>try\<close> block first, where \<open>Inl\<close> is a thrown error, then the
  function with its \<open>catch\<close>, which turns every thrown error into a failed result.
\<close>

definition sendMessage_try ::
  "'s client option \<Rightarrow> 's \<Rightarrow> phone_value \<Rightarrow> string \<Rightarrow> (js_error + MessageResult) \<times> 's \<times> event list" where
  "sendMessage_try client s phone message =
     (case client of
        None \<Rightarrow> (Inl (Error ''WhatsApp client not initialized''), s, [])
      | Some c \<Rightarrow>
          (let chatId = formatPhoneNumber phone;
               (outcome, s') = c s chatId message
           in case outcome of
                Some e \<Rightarrow> (Inl e, s', [ClientSend chatId message (Some e)])
              | None \<Rightarrow>
                  (Inr \<lparr>m_phone = phoneToString phone, m_status = Success, m_error = None\<rparr>,
                   s', [ClientSend chatId message None])))"

definition errorMessage :: "js_error \<Rightarrow> string" where
  "errorMessage e = (case e of Error m \<Rightarrow> m | NonError \<Rightarrow> ''Unknown error'')"

definition sendMessage ::
  "'s client option \<Rightarrow> 's \<Rightarrow> phone_value \<Rightarrow> string \<Rightarrow> MessageResult \<times> 's \<times> event list" where
  "sendMessage client s phone message =
     (case sendMessage_try client s phone message of
        (Inr r, s', evs) \<Rightarrow> (r, s', evs)
      | (Inl e, s', evs) \<Rightarrow>
          (\<lparr>m_phone = phoneToString phone, m_status = Failed, m_error = Some (errorMessage e)\<rparr>,
           s', evs))"

text \<open>
  The guard \<open>!phone || phone instanceof Date\<close> of the loop. Behind the guard the value is a
  non-empty string or a number other than 0, which the expression
  \<open>typeof phone === 'string' || typeof phone === 'number' ? phone : String(phone)\<close> passes on as
  it is; no value of a cell reaches its \<open>String(phone)\<close> alternative.
\<close>

fun falsy :: "cell \<Rightarrow> bool" where
  "falsy Undefined = True"
| "falsy (Text s) = (s = [])"
| "falsy (Num n) = (n = 0)"
| "falsy (DateV d) = False"

fun instanceofDate :: "cell \<Rightarrow> bool" where
  "instanceofDate (DateV d) = True"
| "instanceofDate c = False"

definition checkPhone :: "cell \<Rightarrow> phone_value option" where
  "checkPhone phone =
     (if falsy phone \<or> instanceofDate phone then None
      else case phone of
             Text s \<Rightarrow> Some (PString s)
           | Num n \<Rightarrow> Some (PNumber n)
           | _ \<Rightarrow> None)"

text \<open>
  \<open>if (progressCallback) progressCallback(p)\<close>: the callback is optional, and the flag says
  whether one was given. \<open>countFailed\<close> and \<open>countSuccess\<close> are the increment of a counter
  with the push onto \<open>results.details\<close>.
\<close>

definition notify :: "bool \<Rightarrow> ProgressData \<Rightarrow> event list" where
  "notify progressCallback p = (if progressCallback then [Progress p] else [])"

definition countFailed :: "Detail \<Rightarrow> SendMessagesResults \<Rightarrow> SendMessagesResults" where
  "countFailed d r = r\<lparr>failed := failed r + 1, details := details r @ [d]\<rparr>"

definition countSuccess :: "Detail \<Rightarrow> SendMessagesResults \<Rightarrow> SendMessagesResults" where
  "countSuccess d r = r\<lparr>success := success r + 1, details := details r @ [d]\<rparr>"

definition emit :: "nat \<Rightarrow> event list \<Rightarrow> 's run_state \<Rightarrow> 's run_state" where
  "emit i evs st = st\<lparr>trace := trace st @ map (Pair i) evs\<rparr>"

text \<open>
  One iteration of the \<open>for\<close> loop, for the index \<open>i\<close>. The first branch ends with
  \<open>continue\<close>, so it does not reach the delay at the end of the body.
\<close>

definition processRow ::
  "(jsdate \<Rightarrow> string) \<Rightarrow> 's client option \<Rightarrow> ExcelRow list \<Rightarrow> string \<Rightarrow> string \<Rightarrow> int \<Rightarrow> bool
   \<Rightarrow> nat \<Rightarrow> 's run_state \<Rightarrow> 's run_state" where
  "processRow loc client data phoneColumn template delay progressCallback i st =
     (let row = data ! i;
          phone = cellAt row phoneColumn
      in case checkPhone phone of
           None \<Rightarrow>
             emit i (notify progressCallback
                       \<lparr>current = i + 1, p_total = length data, p_phone = ''N/A'',
                        p_status = PFailed, p_error = Some ''No phone number''\<rparr>)
               (st\<lparr>results := countFailed
                    \<lparr>d_index = i, d_phone = ''N/A'', d_status = Failed,
                     d_error = Some ''No phone number''\<rparr> (results st)\<rparr>)
         | Some phoneValue \<Rightarrow>
             (let message = formatMessage loc template row;
                  st1 = emit i ([FormatMessage message]
                          @ notify progressCallback
                              \<lparr>current = i + 1, p_total = length data,
                               p_phone = phoneToString phoneValue, p_status = PSending,
                               p_error = None\<rparr>
                          @ [SendMessage phoneValue message]) st;
                  (result, s', evs) = sendMessage client (conn st1) phoneValue message;
                  st2 = emit i evs (st1\<lparr>conn := s'\<rparr>);
                  st3 = (if m_status result = Success
                         then emit i (notify progressCallback
                                \<lparr>current = i + 1, p_total = length data,
                                 p_phone = phoneToString phoneValue, p_status = PSuccess,
                                 p_error = None\<rparr>)
                               (st2\<lparr>results := countSuccess
                                  \<lparr>d_index = i, d_phone = phoneToString phoneValue,
                                   d_status = Success, d_error = None\<rparr> (results st2)\<rparr>)
                         else emit i (notify progressCallback
                                \<lparr>current = i + 1, p_total = length data,
                                 p_phone = phoneToString phoneValue, p_status = PFailed,
                                 p_error = m_error result\<rparr>)
                               (st2\<lparr>results := countFailed
                                  \<lparr>d_index = i, d_phone = phoneToString phoneValue,
                                   d_status = Failed, d_error = m_error result\<rparr> (results st2)\<rparr>))
              in if int i < int (length data) - 1
                 then emit i [Delay (delay * 1000)] st3
                 else st3))"

text \<open>The loop from index \<open>i\<close> on, and the whole function; \<open>sendMessages_run\<close> keeps the events.\<close>

function sendLoop ::
  "(jsdate \<Rightarrow> string) \<Rightarrow> 's client option \<Rightarrow> ExcelRow list \<Rightarrow> string \<Rightarrow> string \<Rightarrow> int \<Rightarrow> bool
   \<Rightarrow> nat \<Rightarrow> 's run_state \<Rightarrow> 's run_state" where
  "sendLoop loc client data phoneColumn template delay progressCallback i st =
     (if i < length data
      then sendLoop loc client data phoneColumn template delay progressCallback (i + 1)
             (processRow loc client data phoneColumn template delay progressCallback i st)
      else st)"
  by pat_completeness auto
termination
  by (relation "measure (\<lambda>(loc, client, data, phoneColumn, template, delay, cb, i, st). length data - i)") auto

declare sendLoop.simps [simp del]

definition sendMessages_run ::
  "(jsdate \<Rightarrow> string) \<Rightarrow> 's client option \<Rightarrow> 's \<Rightarrow> ExcelRow list \<Rightarrow> string \<Rightarrow> string \<Rightarrow> int \<Rightarrow> bool
   \<Rightarrow> 's run_state" where
  "sendMessages_run loc client s0 data phoneColumn template delay progressCallback =
     sendLoop loc client data phoneColumn template delay progressCallback 0
       \<lparr>results = \<lparr>total_rows = length data, success = 0, failed = 0, details = []\<rparr>,
        conn = s0, trace = []\<rparr>"

definition sendMessages ::
  "(jsdate \<Rightarrow> string) \<Rightarrow> 's client option \<Rightarrow> 's \<Rightarrow> ExcelRow list \<Rightarrow> string \<Rightarrow> string \<Rightarrow> int \<Rightarrow> bool
   \<Rightarrow> SendMessagesResults" where
  "sendMessages loc client s0 data phoneColumn template delay progressCallback =
     results (sendMessages_run loc client s0 data phoneColumn template delay progressCallback)"


section \<open>Auxiliary definitions for the proofs\<close>

text \<open>The replacement one column makes, and its effect on the pieces of a template.\<close>

definition replaceAll :: "string \<Rightarrow> string \<Rightarrow> string \<Rightarrow> string" where
  "replaceAll sep v s = join_str v (split_str sep s)"

fun subst1 :: "string \<Rightarrow> string \<Rightarrow> token \<Rightarrow> token" where
  "subst1 k v (Lit s) = Lit s"
| "subst1 k v (Ph n) = (if n = k then Lit v else Ph n)"

fun substs :: "(string \<Rightarrow> string) \<Rightarrow> string list \<Rightarrow> token \<Rightarrow> token" where
  "substs val ks (Lit s) = Lit s"
| "substs val ks (Ph n) = (if n \<in> set ks then Lit (val n) else Ph n)"

text \<open>
  The outcome, the events and the next connection state of one row, as a function of the
  connection state the row starts in; the connection state before each row; and the state of
  the loop after \<open>n\<close> rows in closed form.
\<close>

definition addDetail :: "Detail \<Rightarrow> SendMessagesResults \<Rightarrow> SendMessagesResults" where
  "addDetail d r = (if d_status d = Success then countSuccess d r else countFailed d r)"

definition rowStep ::
  "(jsdate \<Rightarrow> string) \<Rightarrow> 's client option \<Rightarrow> ExcelRow list \<Rightarrow> string \<Rightarrow> string \<Rightarrow> int \<Rightarrow> bool
   \<Rightarrow> nat \<Rightarrow> 's \<Rightarrow> Detail \<times> event list \<times> 's" where
  "rowStep loc client data phoneColumn template delay cb i s =
     (case checkPhone (cellAt (data ! i) phoneColumn) of
        None \<Rightarrow>
          (\<lparr>d_index = i, d_phone = ''N/A'', d_status = Failed, d_error = Some ''No phone number''\<rparr>,
           notify cb \<lparr>current = i + 1, p_total = length data, p_phone = ''N/A'',
                      p_status = PFailed, p_error = Some ''No phone number''\<rparr>,
           s)
      | Some pv \<Rightarrow>
          (let message = formatMessage loc template (data ! i);
               (result, s', evs) = sendMessage client s pv message;
               ok = (m_status result = Success)
           in (\<lparr>d_index = i, d_phone = phoneToString pv, d_status = m_status result,
                d_error = (if ok then None else m_error result)\<rparr>,
               [FormatMessage message]
               @ notify cb \<lparr>current = i + 1, p_total = length data, p_phone = phoneToString pv,
                            p_status = PSending, p_error = None\<rparr>
               @ [SendMessage pv message] @ evs
               @ notify cb \<lparr>current = i + 1, p_total = length data, p_phone = phoneToString pv,
                            p_status = (if ok then PSuccess else PFailed),
                            p_error = (if ok then None else m_error result)\<rparr>
               @ (if int i < int (length data) - 1 then [Delay (delay * 1000)] else []),
               s')))"

primrec connAt ::
  "(jsdate \<Rightarrow> string) \<Rightarrow> 's client option \<Rightarrow> ExcelRow list \<Rightarrow> string \<Rightarrow> string \<Rightarrow> int \<Rightarrow> bool
   \<Rightarrow> 's \<Rightarrow> nat \<Rightarrow> 's" where
  "connAt loc cl data pc tpl dl cb s0 0 = s0"
| "connAt loc cl data pc tpl dl cb s0 (Suc n) =
     snd (snd (rowStep loc cl data pc tpl dl cb n (connAt loc cl data pc tpl dl cb s0 n)))"

definition rowDetail ::
  "(jsdate \<Rightarrow> string) \<Rightarrow> 's client option \<Rightarrow> ExcelRow list \<Rightarrow> string \<Rightarrow> string \<Rightarrow> int \<Rightarrow> bool
   \<Rightarrow> 's \<Rightarrow> nat \<Rightarrow> Detail" where
  "rowDetail loc cl data pc tpl dl cb s0 i =
     fst (rowStep loc cl data pc tpl dl cb i (connAt loc cl data pc tpl dl cb s0 i))"

definition rowEvs ::
  "(jsdate \<Rightarrow> string) \<Rightarrow> 's client option \<Rightarrow> ExcelRow list \<Rightarrow> string \<Rightarrow> string \<Rightarrow> int \<Rightarrow> bool
   \<Rightarrow> 's \<Rightarrow> nat \<Rightarrow> event list" where
  "rowEvs loc cl data pc tpl dl cb s0 i =
     fst (snd (rowStep loc cl data pc tpl dl cb i (connAt loc cl data pc tpl dl cb s0 i)))"

definition countStatus :: "status \<Rightarrow> Detail list \<Rightarrow> nat" where
  "countStatus x ds = length (filter (\<lambda>d. d_status d = x) ds)"

definition stateAt ::
  "(jsdate \<Rightarrow> string) \<Rightarrow> 's client option \<Rightarrow> ExcelRow list \<Rightarrow> string \<Rightarrow> string \<Rightarrow> int \<Rightarrow> bool
   \<Rightarrow> 's \<Rightarrow> nat \<Rightarrow> 's run_state" where
  "stateAt loc cl data pc tpl dl cb s0 n =
     (let ds = map (rowDetail loc cl data pc tpl dl cb s0) [0..<n]
      in \<lparr>results = \<lparr>total_rows = length data, success = countStatus Success ds,
                      failed = countStatus Failed ds, details = ds\<rparr>,
          conn = connAt loc cl data pc tpl dl cb s0 n,
          trace = concat (map (\<lambda>j. map (Pair j) (rowEvs loc cl data pc tpl dl cb s0 j)) [0..<n])\<rparr>)"

text \<open>The events of one row in a trace, and the kinds of events.\<close>

definition rowEvents :: "nat \<Rightarrow> (nat \<times> event) list \<Rightarrow> event list" where
  "rowEvents i tr = map snd (filter (\<lambda>je. fst je = i) tr)"

fun isDelay :: "event \<Rightarrow> bool" where
  "isDelay (Delay ms) = True"
| "isDelay e = False"

fun isSendMessage :: "event \<Rightarrow> bool" where
  "isSendMessage (SendMessage p m) = True"
| "isSendMessage e = False"

fun isClientSend :: "event \<Rightarrow> bool" where
  "isClientSend (ClientSend c m out) = True"
| "isClientSend e = False"

fun progressOf :: "event list \<Rightarrow> ProgressData list" where
  "progressOf [] = []"
| "progressOf (Progress p # es) = p # progressOf es"
| "progressOf (e # es) = progressOf es"

section \<open>Properties of formatPhoneNumber\<close>

lemma natToString_small: "n < 10 \<Longrightarrow> natToString n = [''0123456789'' ! n]"
  by (subst natToString.simps) simp

lemma natToString_large:
  "10 \<le> n \<Longrightarrow> natToString n = natToString (n div 10) @ [''0123456789'' ! (n mod 10)]"
  by (subst natToString.simps) simp

lemma replaceNonDigits_filter: "replaceNonDigits [] s = filter isDigit s"
  by (induction s) simp_all

section \<open>Properties of split and join\<close>


lemma splitFrom_not_Nil: "splitFrom sep cur s \<noteq> []"
  by (induction sep cur s rule: splitFrom.induct) auto

lemma join_Cons: "ps \<noteq> [] \<Longrightarrow> join_str v (p # ps) = p @ v @ join_str v ps"
  by (cases ps) auto

lemma join_splitFrom: "join_str v (splitFrom sep cur s) = cur @ join_str v (splitFrom sep [] s)"
proof (induction s arbitrary: cur rule: length_induct)
  case (1 s)
  show ?case
  proof (cases s)
    case Nil
    then show ?thesis by simp
  next
    case (Cons c cs)
    show ?thesis
    proof (cases "sep \<noteq> [] \<and> prefix sep (c # cs)")
      case True
      then show ?thesis
        using Cons by (simp add: join_Cons splitFrom_not_Nil)
    next
      case False
      have len: "length cs < length s"
        using Cons by simp
      have "join_str v (splitFrom sep (cur @ [c]) cs) = (cur @ [c]) @ join_str v (splitFrom sep [] cs)"
        using 1 len by blast
      moreover have "join_str v (splitFrom sep [c] cs) = [c] @ join_str v (splitFrom sep [] cs)"
        using 1 len by blast
      moreover have "splitFrom sep cur (c # cs) = splitFrom sep (cur @ [c]) cs"
        using False by auto
      moreover have "splitFrom sep [] (c # cs) = splitFrom sep [c] cs"
        using False by auto
      ultimately show ?thesis
        unfolding Cons by simp
    qed
  qed
qed

lemma replaceAll_Nil: "sep \<noteq> [] \<Longrightarrow> replaceAll sep v [] = []"
  by (simp add: replaceAll_def split_str_def)

lemma replaceAll_skip:
  assumes "sep \<noteq> []" "\<not> prefix sep (c # cs)"
  shows "replaceAll sep v (c # cs) = c # replaceAll sep v cs"
  using assms join_splitFrom [of v sep "[c]" cs] by (simp add: replaceAll_def split_str_def)

lemma replaceAll_match:
  assumes "sep \<noteq> []"
  shows "replaceAll sep v (sep @ rest) = v @ replaceAll sep v rest"
proof -
  obtain a sep' where s: "sep = a # sep'"
    using assms by (cases sep) auto
  have "splitFrom sep [] (sep @ rest) = [] # splitFrom sep [] rest"
    unfolding s by simp
  then show ?thesis
    using assms by (simp add: replaceAll_def split_str_def join_Cons splitFrom_not_Nil)
qed

lemma replaceAll_lit:
  assumes "hd sep \<notin> set lit" "sep \<noteq> []"
  shows "replaceAll sep v (lit @ rest) = lit @ replaceAll sep v rest"
  using assms
proof (induction lit)
  case Nil
  then show ?case by simp
next
  case (Cons a lit)
  then have "\<not> prefix sep (a # lit @ rest)"
    by (cases sep) auto
  then show ?case
    using Cons by (simp add: replaceAll_skip)
qed

lemma prefix_name_eq:
  assumes "CHR ''}'' \<notin> set k" "CHR ''}'' \<notin> set n" "prefix (k @ CHR ''}'' # x) (n @ CHR ''}'' # y)"
  shows "k = n"
  using assms
proof (induction k arbitrary: n)
  case Nil
  then show ?case by (cases n) auto
next
  case (Cons a k)
  then show ?case by (cases n) auto
qed

lemma replaceAll_other:
  assumes "n \<noteq> k" "CHR ''}'' \<notin> set k" "CHR ''}'' \<notin> set n" "CHR ''{'' \<notin> set n"
  shows "replaceAll (placeholder k) v (placeholder n @ rest) = placeholder n @ replaceAll (placeholder k) v rest"
proof -
  have np: "\<not> prefix (placeholder k) (CHR ''{'' # n @ CHR ''}'' # rest)"
    using assms prefix_name_eq [of k n "[]" rest] by (auto simp: placeholder_def)
  have "replaceAll (placeholder k) v (CHR ''{'' # (n @ ''}'') @ rest)
        = CHR ''{'' # replaceAll (placeholder k) v ((n @ ''}'') @ rest)"
    using np by (intro replaceAll_skip) (simp_all add: placeholder_def)
  also have "replaceAll (placeholder k) v ((n @ ''}'') @ rest) = (n @ ''}'') @ replaceAll (placeholder k) v rest"
    using assms by (intro replaceAll_lit) (simp_all add: placeholder_def)
  finally show ?thesis
    by (simp add: placeholder_def)
qed


lemma hd_placeholder: "hd (placeholder k) = CHR ''{''" "placeholder k \<noteq> []"
  by (simp_all add: placeholder_def)

lemma replaceAll_template:
  assumes "list_all wf_token ts" "CHR ''}'' \<notin> set k"
  shows "replaceAll (placeholder k) v (template_text ts) = template_text (map (subst1 k v) ts)"
  using assms(1)
proof (induction ts)
  case Nil
  then show ?case
    by (simp add: template_text_def replaceAll_Nil hd_placeholder)
next
  case (Cons t ts)
  then have ih: "replaceAll (placeholder k) v (template_text ts) = template_text (map (subst1 k v) ts)"
    by simp
  show ?case
  proof (cases t)
    case (Lit s)
    then have "CHR ''{'' \<notin> set s"
      using Cons.prems by simp
    then have "replaceAll (placeholder k) v (s @ template_text ts) = s @ replaceAll (placeholder k) v (template_text ts)"
      by (intro replaceAll_lit) (simp_all add: hd_placeholder)
    then show ?thesis
      using Lit ih by (simp add: template_text_def)
  next
    case (Ph n)
    show ?thesis
    proof (cases "n = k")
      case True
      have "replaceAll (placeholder k) v (placeholder k @ template_text ts) = v @ replaceAll (placeholder k) v (template_text ts)"
        by (intro replaceAll_match) (simp add: hd_placeholder)
      then show ?thesis
        using Ph True ih by (simp add: template_text_def)
    next
      case False
      have "replaceAll (placeholder k) v (placeholder n @ template_text ts) = placeholder n @ replaceAll (placeholder k) v (template_text ts)"
        using False assms(2) Cons.prems Ph by (intro replaceAll_other) simp_all
      then show ?thesis
        using Ph False ih by (simp add: template_text_def)
    qed
  qed
qed

lemma wf_subst1:
  assumes "list_all wf_token ts" "CHR ''{'' \<notin> set v"
  shows "list_all wf_token (map (subst1 k v) ts)"
  using assms(1)
proof (induction ts)
  case Nil
  then show ?case by simp
next
  case (Cons t ts)
  then show ?case
    using assms(2) by (cases t) auto
qed

lemma substs_Cons: "substs val ks (subst1 k (val k) t) = substs val (k # ks) t"
  by (cases t) auto

lemma fold_replaceAll_template:
  assumes "list_all wf_token ts"
    and "\<forall>k \<in> set ks. CHR ''}'' \<notin> set k \<and> CHR ''{'' \<notin> set (val k)"
  shows "fold (\<lambda>k m. replaceAll (placeholder k) (val k) m) ks (template_text ts)
         = template_text (map (substs val ks) ts)"
  using assms
proof (induction ks arbitrary: ts)
  case Nil
  have "map (substs val []) ts = ts"
  proof (rule map_idI)
    fix t show "substs val [] t = t" by (cases t) auto
  qed
  then show ?case by simp
next
  case (Cons k ks)
  let ?ts = "map (subst1 k (val k)) ts"
  have step: "replaceAll (placeholder k) (val k) (template_text ts) = template_text ?ts"
    using Cons.prems by (intro replaceAll_template) simp_all
  have wf: "list_all wf_token ?ts"
    using Cons.prems by (intro wf_subst1) simp_all
  have "fold (\<lambda>k m. replaceAll (placeholder k) (val k) m) ks (template_text ?ts)
        = template_text (map (substs val ks) ?ts)"
    using wf Cons.prems(2) by (intro Cons.IH) simp_all
  then show ?case
    by (simp add: step substs_Cons comp_def)
qed

lemma substituteColumn_replaceAll:
  "substituteColumn loc row k m = replaceAll (placeholder k) (cellValue loc (cellAt row k)) m"
  by (simp add: substituteColumn_def replaceAll_def)

lemma wf_row_key:
  assumes "wf_row loc row" "k \<in> set (map fst row)"
  shows "CHR ''}'' \<notin> set k \<and> CHR ''{'' \<notin> set (cellValue loc (cellAt row k))"
proof -
  obtain v where v: "map_of row k = Some v"
    using assms(2) by (metis map_of_eq_None_iff not_Some_eq set_map)
  then have "(k, v) \<in> set row"
    by (rule map_of_SomeD)
  then show ?thesis
    using assms(1) v by (auto simp: wf_row_def list_all_iff cellAt_def)
qed

lemma text_substs_render:
  "token_text (substs (\<lambda>k. cellValue loc (cellAt row k)) (map fst row) t) = render_token loc row t"
proof (cases t)
  case (Lit s)
  then show ?thesis by simp
next
  case (Ph n)
  show ?thesis
  proof (cases "map_of row n")
    case None
    then have "n \<notin> set (map fst row)"
      by (simp add: map_of_eq_None_iff)
    then show ?thesis using Ph None by simp
  next
    case (Some v)
    then have "n \<in> set (map fst row)"
      by (metis map_of_eq_None_iff option.distinct(1) set_map)
    then show ?thesis using Ph Some by (simp add: cellAt_def)
  qed
qed

lemma formatMessage_template:
  assumes "list_all wf_token ts" "wf_row loc row"
  shows "formatMessage loc (template_text ts) row = render_spec loc row ts"
proof -
  let ?val = "\<lambda>k. cellValue loc (cellAt row k)"
  have "substituteColumn loc row = (\<lambda>k m. replaceAll (placeholder k) (?val k) m)"
    by (intro ext) (simp add: substituteColumn_replaceAll)
  then have "formatMessage loc (template_text ts) row
        = fold (\<lambda>k m. replaceAll (placeholder k) (?val k) m) (map fst row) (template_text ts)"
    by (simp add: formatMessage_def)
  also have "\<dots> = template_text (map (substs ?val (map fst row)) ts)"
    using assms wf_row_key [OF assms(2)] by (intro fold_replaceAll_template) blast+
  also have "\<dots> = render_spec loc row ts"
    by (simp add: template_text_def render_spec_def comp_def text_substs_render)
  finally show ?thesis .
qed




section \<open>Claims about the pure helpers\<close>

text \<open>
  C6. For every raw destination value, text or number, \<open>formatPhoneNumber\<close> returns the
  decimal digits of its string form, in their order, followed by \<open>@c.us\<close>. A value without
  any digit gives \<open>@c.us\<close> alone, and \<open>+1 (234) 567-8901\<close> gives \<open>12345678901@c.us\<close>.
\<close>

theorem formatPhoneNumber_digits:
  "formatPhoneNumber phone = filter (\<lambda>c. c \<in> set ''0123456789'') (phoneToString phone) @ ''@c.us''
   \<and> ((\<forall>c \<in> set (phoneToString phone). c \<notin> set ''0123456789'') \<longrightarrow> formatPhoneNumber phone = ''@c.us'')
   \<and> formatPhoneNumber (PString ''+1 (234) 567-8901'') = ''12345678901@c.us''"
proof -
  have eq: "formatPhoneNumber p = filter (\<lambda>c. c \<in> set ''0123456789'') (phoneToString p) @ ''@c.us''" for p
    by (simp add: formatPhoneNumber_def replaceNonDigits_filter isDigit_def [abs_def])
  have "filter (\<lambda>c. c \<in> set ''0123456789'') (phoneToString phone) = []"
    if "\<forall>c \<in> set (phoneToString phone). c \<notin> set ''0123456789''"
    using that by (auto simp: filter_empty_conv)
  moreover have "formatPhoneNumber (PString ''+1 (234) 567-8901'') = ''12345678901@c.us''"
    by (simp add: formatPhoneNumber_def isDigit_def)
  ultimately show ?thesis
    using eq by simp
qed

text \<open>The statement of C6 at a value without digits and at a number.\<close>

theorem formatPhoneNumber_digits_witness:
  "formatPhoneNumber (PString ''n/a'') = ''@c.us''
   \<and> formatPhoneNumber (PNumber 4915) = ''4915@c.us''"
proof -
  have h: "\<forall>c \<in> set (phoneToString (PString ''n/a'')). c \<notin> set ''0123456789''"
    by simp
  have n: "phoneToString (PNumber 4915) = ''4915''"
    by (simp add: intToString_def natToString_small natToString_large)
  have "formatPhoneNumber (PNumber 4915) = ''4915@c.us''"
    using formatPhoneNumber_digits [of "PNumber 4915"] unfolding n by simp
  then show ?thesis
    using h formatPhoneNumber_digits [of "PString ''n/a''"] by blast
qed

text \<open>
  C4, as amended. For a template made of literal text without an opening brace and of
  placeholders whose names hold no brace, and a row none of whose column names holds a closing
  brace and none of whose display texts holds an opening brace, \<open>formatMessage\<close> replaces
  every occurrence of every placeholder of a column of the row by the column's display text
  and leaves every other placeholder as it is written.
\<close>

theorem formatMessage_well_formed:
  assumes "list_all wf_token ts" and "wf_row loc row"
  shows "formatMessage loc (template_text ts) row = render_spec loc row ts"
  using assms by (rule formatMessage_template)

text \<open>The amended C4 at a template with a repeated, an unmatched and a numeric placeholder.\<close>

theorem formatMessage_well_formed_witness:
  "list_all wf_token [Ph ''X'', Lit ''-'', Ph ''X'', Lit '' Hi '', Ph ''Missing'', Lit '', bal '', Ph ''Balance'']
   \<and> wf_row (\<lambda>d. ''1/2/2024'') [(''X'', Text ''a''), (''Balance'', Num 50), (''Day'', DateV 0)]
   \<and> formatMessage (\<lambda>d. ''1/2/2024'') ''{X}-{X} Hi {Missing}, bal {Balance}''
        [(''X'', Text ''a''), (''Balance'', Num 50), (''Day'', DateV 0)] = ''a-a Hi {Missing}, bal 50''"
proof -
  let ?ts = "[Ph ''X'', Lit ''-'', Ph ''X'', Lit '' Hi '', Ph ''Missing'', Lit '', bal '', Ph ''Balance'']"
  let ?row = "[(''X'', Text ''a''), (''Balance'', Num 50), (''Day'', DateV 0)]"
  have n: "intToString 50 = ''50''"
    by (simp add: intToString_def natToString_small natToString_large)
  have a: "list_all wf_token ?ts" by simp
  have b: "wf_row (\<lambda>d. ''1/2/2024'') ?row" by (simp add: wf_row_def n)
  have "formatMessage (\<lambda>d. ''1/2/2024'') (template_text ?ts) ?row = render_spec (\<lambda>d. ''1/2/2024'') ?row ?ts"
    using formatMessage_well_formed [OF a b] .
  then show ?thesis
    using a b by (simp add: template_text_def render_spec_def placeholder_def n)
qed

text \<open>
  C4 as stated fails: the columns are substituted one after the other, each on the result of
  the one before, so the text put in for \<open>{Name}\<close> is substituted again where it reads
  \<open>{Note}\<close>, and the output is not the template with \<open>{Name}\<close> replaced by its display text.
\<close>

theorem formatMessage_rescans_counterexample:
  "formatMessage (\<lambda>d. []) (template_text [Lit ''Dear '', Ph ''Name''])
      [(''Name'', Text ''{Note}''), (''Note'', Text ''n/a'')] = ''Dear n/a''
   \<and> render_spec (\<lambda>d. []) [(''Name'', Text ''{Note}''), (''Note'', Text ''n/a'')]
        [Lit ''Dear '', Ph ''Name''] = ''Dear {Note}''
   \<and> template_text [Lit ''Dear '', Ph ''Name''] = ''Dear {Name}''"
  by (simp add: formatMessage_def substituteColumn_def cellAt_def split_str_def
      template_text_def render_spec_def placeholder_def)

text \<open>
  C5 as stated fails: the same template and the same columns give two outputs in the two
  orders of the columns, and in the first the replacement text of \<open>{A}\<close> is scanned again.
\<close>

theorem formatMessage_order_counterexample:
  "formatMessage (\<lambda>d. []) ''{A}'' [(''A'', Text ''{B}''), (''B'', Text ''x'')] = ''x''
   \<and> formatMessage (\<lambda>d. []) ''{A}'' [(''B'', Text ''x''), (''A'', Text ''{B}'')] = ''{B}''"
  by (simp add: formatMessage_def substituteColumn_def cellAt_def split_str_def placeholder_def)

text \<open>
  C5, as amended. For a well-formed template and a row whose column names hold no closing brace
  and whose display texts hold no opening brace, the output of \<open>formatMessage\<close> is the same
  for every order of the row's columns, and it is the one-pass rendering: no replacement text
  is substituted again.
\<close>

theorem formatMessage_order_independent:
  assumes "list_all wf_token ts" and "wf_row loc row"
    and "distinct (map fst row)" and "distinct (map fst row')" and "set row' = set row"
  shows "formatMessage loc (template_text ts) row' = formatMessage loc (template_text ts) row
         \<and> formatMessage loc (template_text ts) row' = render_spec loc row ts"
proof -
  have wf': "wf_row loc row'"
    using assms(2,5) by (simp add: wf_row_def list_all_iff)
  have "map_of row' = map_of row"
    using assms(3-5) by (simp add: map_of_inject_set)
  then have "render_token loc row' = render_token loc row"
    by (intro ext) (case_tac x; simp)
  then have "render_spec loc row' ts = render_spec loc row ts"
    by (simp add: render_spec_def)
  then show ?thesis
    using formatMessage_template [OF assms(1) wf'] formatMessage_template [OF assms(1,2)] by simp
qed

text \<open>The amended C5 at a row of two columns in both orders.\<close>

theorem formatMessage_order_independent_witness:
  "list_all wf_token [Ph ''A'', Lit '' / '', Ph ''B'']
   \<and> wf_row (\<lambda>d. []) [(''A'', Text ''1''), (''B'', Text ''2'')]
   \<and> distinct (map fst [(''A'', Text ''1''), (''B'', Text ''2'')])
   \<and> distinct (map fst [(''B'', Text ''2''), (''A'', Text ''1'')])
   \<and> set [(''B'', Text ''2''), (''A'', Text ''1'')] = set [(''A'', Text ''1''), (''B'', Text ''2'')]
   \<and> formatMessage (\<lambda>d. []) ''{A} / {B}'' [(''B'', Text ''2''), (''A'', Text ''1'')] = ''1 / 2''
   \<and> formatMessage (\<lambda>d. []) ''{A} / {B}'' [(''A'', Text ''1''), (''B'', Text ''2'')] = ''1 / 2''"
proof -
  let ?ts = "[Ph ''A'', Lit '' / '', Ph ''B'']"
  let ?row = "[(''A'', Text ''1''), (''B'', Text ''2'')]"
  let ?row' = "[(''B'', Text ''2''), (''A'', Text ''1'')]"
  have a: "list_all wf_token ?ts" by simp
  have b: "wf_row (\<lambda>d. []) ?row" by (simp add: wf_row_def)
  have c: "distinct (map fst ?row)" by simp
  have d: "distinct (map fst ?row')" by simp
  have e: "set ?row' = set ?row" by auto
  have t: "template_text ?ts = ''{A} / {B}''"
    by (simp add: template_text_def placeholder_def)
  have r: "render_spec (\<lambda>d. []) ?row ?ts = ''1 / 2''"
    by (simp add: render_spec_def)
  have "formatMessage (\<lambda>d. []) ''{A} / {B}'' ?row' = formatMessage (\<lambda>d. []) ''{A} / {B}'' ?row
      \<and> formatMessage (\<lambda>d. []) ''{A} / {B}'' ?row' = ''1 / 2''"
    using formatMessage_order_independent [OF a b c d e] unfolding t r .
  then show ?thesis
    using a b c d e by metis
qed

section \<open>The loop in closed form\<close>

lemma processRow_rowStep:
  "processRow loc client data phoneColumn template delay cb i st =
     (case rowStep loc client data phoneColumn template delay cb i (conn st) of
        (d, evs, s') \<Rightarrow>
          st\<lparr>results := addDetail d (results st), conn := s', trace := trace st @ map (Pair i) evs\<rparr>)"
proof (cases "checkPhone (cellAt (data ! i) phoneColumn)")
  case None
  then show ?thesis
    by (simp add: processRow_def rowStep_def emit_def addDetail_def)
next
  case (Some pv)
  obtain result s' evs where sm:
    "sendMessage client (conn st) pv (formatMessage loc template (data ! i)) = (result, s', evs)"
    by (cases "sendMessage client (conn st) pv (formatMessage loc template (data ! i))") auto
  show ?thesis
  proof (cases "m_status result = Success")
    case True
    then show ?thesis
      using Some sm by (simp add: processRow_def rowStep_def emit_def addDetail_def Let_def)
  next
    case False
    then have "m_status result = Failed"
      by (cases "m_status result") auto
    then show ?thesis
      using Some sm by (simp add: processRow_def rowStep_def emit_def addDetail_def Let_def)
  qed
qed

lemma countStatus_snoc:
  "countStatus x (ds @ [d]) = countStatus x ds + (if d_status d = x then 1 else 0)"
  by (simp add: countStatus_def)

lemma processRow_stateAt:
  "processRow loc cl data pc tpl dl cb n (stateAt loc cl data pc tpl dl cb s0 n)
   = stateAt loc cl data pc tpl dl cb s0 (Suc n)"
proof -
  obtain d evs s' where rs:
    "rowStep loc cl data pc tpl dl cb n (connAt loc cl data pc tpl dl cb s0 n) = (d, evs, s')"
    by (cases "rowStep loc cl data pc tpl dl cb n (connAt loc cl data pc tpl dl cb s0 n)") auto
  have st: "d_status d = Success \<or> d_status d = Failed"
    by (cases "d_status d") auto
  show ?thesis
    using st
    by (auto simp: processRow_rowStep stateAt_def rs rowDetail_def rowEvs_def Let_def
        addDetail_def countSuccess_def countFailed_def countStatus_snoc)
qed

lemma sendLoop_stateAt:
  "i \<le> length data \<Longrightarrow>
   sendLoop loc cl data pc tpl dl cb i (stateAt loc cl data pc tpl dl cb s0 i)
   = stateAt loc cl data pc tpl dl cb s0 (length data)"
proof (induction "length data - i" arbitrary: i)
  case 0
  then show ?case
    by (subst sendLoop.simps) simp
next
  case (Suc k)
  then have lt: "i < length data" and k: "k = length data - Suc i"
    by simp_all
  have "sendLoop loc cl data pc tpl dl cb (Suc i) (stateAt loc cl data pc tpl dl cb s0 (Suc i))
        = stateAt loc cl data pc tpl dl cb s0 (length data)"
    using Suc.hyps(1) [OF k] lt by simp
  then show ?case
    using lt by (subst sendLoop.simps) (simp add: processRow_stateAt)
qed

lemma sendMessages_run_stateAt:
  "sendMessages_run loc cl s0 data pc tpl dl cb = stateAt loc cl data pc tpl dl cb s0 (length data)"
  using sendLoop_stateAt [of 0 data loc cl pc tpl dl cb s0]
  by (simp add: sendMessages_run_def stateAt_def countStatus_def)

lemma rowEvents_append: "rowEvents i (xs @ ys) = rowEvents i xs @ rowEvents i ys"
  by (simp add: rowEvents_def)

lemma rowEvents_tagged: "rowEvents i (map (Pair j) evs) = (if i = j then evs else [])"
  by (induction evs) (auto simp: rowEvents_def)

lemma rowEvents_concat:
  "rowEvents i (concat (map (\<lambda>j. map (Pair j) (f j)) [0..<n])) = (if i < n then f i else [])"
proof (induction n)
  case 0
  then show ?case by (simp add: rowEvents_def)
next
  case (Suc n)
  then show ?case
    by (auto simp: rowEvents_append rowEvents_tagged)
qed

lemma run_details:
  "details (results (sendMessages_run loc cl s0 data pc tpl dl cb))
   = map (rowDetail loc cl data pc tpl dl cb s0) [0..<length data]"
  by (simp add: sendMessages_run_stateAt stateAt_def Let_def)

lemma run_detail_nth:
  "i < length data \<Longrightarrow>
   details (results (sendMessages_run loc cl s0 data pc tpl dl cb)) ! i
   = rowDetail loc cl data pc tpl dl cb s0 i"
  by (simp add: run_details)

lemma run_rowEvents:
  "i < length data \<Longrightarrow>
   rowEvents i (trace (sendMessages_run loc cl s0 data pc tpl dl cb))
   = rowEvs loc cl data pc tpl dl cb s0 i"
  by (simp add: sendMessages_run_stateAt stateAt_def Let_def rowEvents_concat)

lemma run_counts:
  "total_rows (results (sendMessages_run loc cl s0 data pc tpl dl cb)) = length data"
  "success (results (sendMessages_run loc cl s0 data pc tpl dl cb))
   = countStatus Success (details (results (sendMessages_run loc cl s0 data pc tpl dl cb)))"
  "failed (results (sendMessages_run loc cl s0 data pc tpl dl cb))
   = countStatus Failed (details (results (sendMessages_run loc cl s0 data pc tpl dl cb)))"
  by (simp_all add: sendMessages_run_stateAt stateAt_def Let_def)

lemma countStatus_total: "countStatus Success ds + countStatus Failed ds = length ds"
proof (induction ds)
  case Nil
  then show ?case by (simp add: countStatus_def)
next
  case (Cons d ds)
  then show ?case
    by (cases "d_status d") (simp_all add: countStatus_def)
qed

lemma rowStep_index: "d_index (fst (rowStep loc cl data pc tpl dl cb i s)) = i"
  by (simp add: rowStep_def Let_def split: option.splits prod.splits)

lemma rowStep_ineligible:
  assumes "checkPhone (cellAt (data ! i) pc) = None"
  shows "rowStep loc cl data pc tpl dl cb i s =
     (\<lparr>d_index = i, d_phone = ''N/A'', d_status = Failed, d_error = Some ''No phone number''\<rparr>,
      notify cb \<lparr>current = i + 1, p_total = length data, p_phone = ''N/A'',
                 p_status = PFailed, p_error = Some ''No phone number''\<rparr>,
      s)"
  using assms by (simp add: rowStep_def)

section \<open>Claims about the campaign\<close>

text \<open>
  C1. For every run of \<open>sendMessages\<close> over any list of rows, the result satisfies
  success + failed = total = number of detail entries = number of input rows, whatever the
  sends did and however many rows had no usable phone value, and the detail entries are one
  per row: their indices are 0, 1, ..., n - 1.
\<close>

theorem sendMessages_counts:
  "success (sendMessages loc cl s0 data pc tpl dl cb) + failed (sendMessages loc cl s0 data pc tpl dl cb)
     = total_rows (sendMessages loc cl s0 data pc tpl dl cb)
   \<and> total_rows (sendMessages loc cl s0 data pc tpl dl cb)
     = length (details (sendMessages loc cl s0 data pc tpl dl cb))
   \<and> length (details (sendMessages loc cl s0 data pc tpl dl cb)) = length data
   \<and> map d_index (details (sendMessages loc cl s0 data pc tpl dl cb)) = [0..<length data]"
proof -
  let ?r = "results (sendMessages_run loc cl s0 data pc tpl dl cb)"
  have len: "length (details ?r) = length data"
    by (simp add: run_details)
  have idx: "map d_index (details ?r) = [0..<length data]"
    by (simp add: run_details rowDetail_def rowStep_index comp_def)
  have "success ?r + failed ?r = length (details ?r)"
    by (simp only: run_counts countStatus_total)
  then show ?thesis
    using len idx by (simp add: sendMessages_def run_counts(1))
qed

lemma checkPhone_None_iff: "checkPhone c = None \<longleftrightarrow> falsy c \<or> instanceofDate c"
  by (cases c) (simp_all add: checkPhone_def)

lemma sendMessage_None:
  "sendMessage None s pv m =
     (\<lparr>m_phone = phoneToString pv, m_status = Failed,
       m_error = Some ''WhatsApp client not initialized''\<rparr>, s, [])"
  by (simp add: sendMessage_def sendMessage_try_def errorMessage_def)

lemma sendMessage_Some:
  "sendMessage (Some c) s pv m =
     (case c s (formatPhoneNumber pv) m of
        (None, s') \<Rightarrow>
          (\<lparr>m_phone = phoneToString pv, m_status = Success, m_error = None\<rparr>, s',
           [ClientSend (formatPhoneNumber pv) m None])
      | (Some e, s') \<Rightarrow>
          (\<lparr>m_phone = phoneToString pv, m_status = Failed, m_error = Some (errorMessage e)\<rparr>, s',
           [ClientSend (formatPhoneNumber pv) m (Some e)]))"
  by (simp add: sendMessage_def sendMessage_try_def Let_def split: prod.splits option.splits)

lemma run_detail_ineligible:
  assumes "i < length data" "checkPhone (cellAt (data ! i) pc) = None"
  shows "details (sendMessages loc cl s0 data pc tpl dl cb) ! i =
           \<lparr>d_index = i, d_phone = ''N/A'', d_status = Failed, d_error = Some ''No phone number''\<rparr>"
    and "rowEvents i (trace (sendMessages_run loc cl s0 data pc tpl dl cb)) =
           notify cb \<lparr>current = i + 1, p_total = length data, p_phone = ''N/A'',
                      p_status = PFailed, p_error = Some ''No phone number''\<rparr>"
  using assms
  by (simp_all add: sendMessages_def run_detail_nth run_rowEvents rowDetail_def rowEvs_def
      rowStep_ineligible)



text \<open>
  C10. A row whose phone cell holds the number 0 or the empty string is present in the row and
  still ineligible, since the check is the truthiness of the value: outcome failed with
  \<open>No phone number\<close>, phone \<open>N/A\<close>, and no call of the client.
\<close>

theorem falsy_cell_ineligible:
  assumes "i < length data"
    and "map_of (data ! i) pc = Some (Num 0) \<or> map_of (data ! i) pc = Some (Text [])"
  shows "falsy (cellAt (data ! i) pc)
         \<and> details (sendMessages loc cl s0 data pc tpl dl cb) ! i =
           \<lparr>d_index = i, d_phone = ''N/A'', d_status = Failed, d_error = Some ''No phone number''\<rparr>
         \<and> rowEvents i (trace (sendMessages_run loc cl s0 data pc tpl dl cb)) =
           notify cb \<lparr>current = i + 1, p_total = length data, p_phone = ''N/A'',
                      p_status = PFailed, p_error = Some ''No phone number''\<rparr>"
proof -
  have f: "falsy (cellAt (data ! i) pc)"
    using assms(2) by (auto simp: cellAt_def)
  then have "checkPhone (cellAt (data ! i) pc) = None"
    by (simp add: checkPhone_None_iff)
  then show ?thesis
    using f run_detail_ineligible [OF assms(1), of pc loc cl s0 tpl dl cb] by simp
qed

text \<open>C10 at a row with the number 0 and at a row with the empty string.\<close>

theorem falsy_cell_ineligible_witness:
  "falsy (cellAt ([[(''Phone'', Num 0)], [(''Phone'', Text [])]] ! 0) ''Phone'')
   \<and> details (sendMessages (\<lambda>d. []) (Some (\<lambda>s c m. (None, s))) ()
        [[(''Phone'', Num 0)], [(''Phone'', Text [])]] ''Phone'' ''Hi'' 5 True) ! 0 =
      \<lparr>d_index = 0, d_phone = ''N/A'', d_status = Failed, d_error = Some ''No phone number''\<rparr>
   \<and> rowEvents 0 (trace (sendMessages_run (\<lambda>d. []) (Some (\<lambda>s c m. (None, s))) ()
        [[(''Phone'', Num 0)], [(''Phone'', Text [])]] ''Phone'' ''Hi'' 5 True)) =
      [Progress \<lparr>current = 1, p_total = 2, p_phone = ''N/A'', p_status = PFailed,
                 p_error = Some ''No phone number''\<rparr>]
   \<and> details (sendMessages (\<lambda>d. []) (Some (\<lambda>s c m. (None, s))) ()
        [[(''Phone'', Num 0)], [(''Phone'', Text [])]] ''Phone'' ''Hi'' 5 True) ! 1 =
      \<lparr>d_index = 1, d_phone = ''N/A'', d_status = Failed, d_error = Some ''No phone number''\<rparr>"
proof -
  let ?data = "[[(''Phone'', Num 0)], [(''Phone'', Text [])]]"
  have a: "0 < length ?data" by simp
  have b: "map_of (?data ! 0) ''Phone'' = Some (Num 0) \<or> map_of (?data ! 0) ''Phone'' = Some (Text [])"
    by simp
  have c: "1 < length ?data" by simp
  have d: "map_of (?data ! 1) ''Phone'' = Some (Num 0) \<or> map_of (?data ! 1) ''Phone'' = Some (Text [])"
    by simp
  show ?thesis
    using falsy_cell_ineligible [OF a b, of "\<lambda>d. []" "Some (\<lambda>s c m. (None, s))" "()" "''Hi''" 5 True]
      falsy_cell_ineligible [OF c d, of "\<lambda>d. []" "Some (\<lambda>s c m. (None, s))" "()" "''Hi''" 5 True]
    by (simp add: notify_def)
qed

lemma notify_filters:
  "filter isDelay (notify cb p) = []"
  "filter isSendMessage (notify cb p) = []"
  "filter isClientSend (notify cb p) = []"
  by (simp_all add: notify_def)

lemma sendMessage_events:
  assumes "sendMessage cl s pv m = (r, s', evs)"
  shows "filter isDelay evs = []" and "filter isSendMessage evs = []"
    and "length (filter isClientSend evs) \<le> 1"
  using assms
  by (cases cl; auto simp: sendMessage_None sendMessage_Some split: prod.splits option.splits)+

lemma tags_concat_less:
  "j \<in> set (map fst (concat (map (\<lambda>j. map (Pair j) (f j)) [0..<n]))) \<Longrightarrow> j < n"
  by (induction n) auto

lemma sorted_map_const: "sorted (map (\<lambda>x. (n::nat)) xs)"
  by (induction xs) auto

lemma tags_concat_sorted:
  "sorted (map fst (concat (map (\<lambda>j. map (Pair j) (f j)) [0..<n])))"
proof (induction n)
  case 0
  then show ?case by simp
next
  case (Suc n)
  have "\<forall>x \<in> set (map fst (concat (map (\<lambda>j. map (Pair j) (f j)) [0..<n]))). x \<le> n"
    using tags_concat_less [of _ f n] by (meson less_imp_le)
  then show ?case
    using Suc by (auto simp: sorted_append comp_def sorted_map_const)
qed

lemma run_trace_sorted:
  "sorted (map fst (trace (sendMessages_run loc cl s0 data pc tpl dl cb)))"
  by (simp add: sendMessages_run_stateAt stateAt_def Let_def tags_concat_sorted)

lemma rowStep_eligible:
  assumes "checkPhone (cellAt (data ! i) pc) = Some pv"
    and "sendMessage cl s pv (formatMessage loc tpl (data ! i)) = (result, s', evs)"
  shows "rowStep loc cl data pc tpl dl cb i s =
     (\<lparr>d_index = i, d_phone = phoneToString pv, d_status = m_status result,
       d_error = (if m_status result = Success then None else m_error result)\<rparr>,
      [FormatMessage (formatMessage loc tpl (data ! i))]
      @ notify cb \<lparr>current = i + 1, p_total = length data, p_phone = phoneToString pv,
                   p_status = PSending, p_error = None\<rparr>
      @ [SendMessage pv (formatMessage loc tpl (data ! i))] @ evs
      @ notify cb \<lparr>current = i + 1, p_total = length data, p_phone = phoneToString pv,
                   p_status = (if m_status result = Success then PSuccess else PFailed),
                   p_error = (if m_status result = Success then None else m_error result)\<rparr>
      @ (if int i < int (length data) - 1 then [Delay (dl * 1000)] else []),
      s')"
  using assms by (simp add: rowStep_def Let_def)

text \<open>
  C2, as amended. In every run with delay \<open>d\<close>, a row that passed the phone check and is not
  the last one is followed by exactly one suspension of \<open>d * 1000\<close> milliseconds, the last thing
  done for it, whether its send succeeded or failed; a row without a usable phone value is
  followed by no suspension, and neither is the last row. The rows are processed in order.
\<close>

theorem delay_after_attempted_rows:
  assumes "i < length data"
  shows "filter isDelay (rowEvents i (trace (sendMessages_run loc cl s0 data pc tpl dl cb)))
           = (if checkPhone (cellAt (data ! i) pc) \<noteq> None \<and> i + 1 < length data
              then [Delay (dl * 1000)] else [])
         \<and> (checkPhone (cellAt (data ! i) pc) \<noteq> None \<and> i + 1 < length data \<longrightarrow>
              last (rowEvents i (trace (sendMessages_run loc cl s0 data pc tpl dl cb)))
                = Delay (dl * 1000))
         \<and> sorted (map fst (trace (sendMessages_run loc cl s0 data pc tpl dl cb)))"
proof (cases "checkPhone (cellAt (data ! i) pc)")
  case None
  then show ?thesis
    using assms
    by (simp add: run_rowEvents rowEvs_def rowStep_ineligible notify_filters run_trace_sorted)
next
  case (Some pv)
  let ?s = "connAt loc cl data pc tpl dl cb s0 i"
  obtain result s' evs where sm:
    "sendMessage cl ?s pv (formatMessage loc tpl (data ! i)) = (result, s', evs)"
    by (cases "sendMessage cl ?s pv (formatMessage loc tpl (data ! i))") auto
  have lt: "int i < int (length data) - 1 \<longleftrightarrow> i + 1 < length data"
    by auto
  show ?thesis
    using assms Some
    by (simp add: run_rowEvents rowEvs_def rowStep_eligible [OF Some sm] notify_filters
        sendMessage_events [OF sm] run_trace_sorted lt)
qed

text \<open>
  The amended C2 at a run of three rows whose middle row has an empty phone cell and whose
  sends the client rejects: one delay of 5000 ms ends the first row, none follows the last.
\<close>

theorem delay_after_attempted_rows_witness:
  "filter isDelay (rowEvents 0 (trace (sendMessages_run (\<lambda>d. [])
      (Some (\<lambda>s c m. (Some (Error ''offline''), s))) ()
      [[(''Phone'', Text ''491'')], [(''Phone'', Text '''')], [(''Phone'', Num 492)]]
      ''Phone'' ''Hi'' 5 True))) = [Delay 5000]
   \<and> last (rowEvents 0 (trace (sendMessages_run (\<lambda>d. [])
      (Some (\<lambda>s c m. (Some (Error ''offline''), s))) ()
      [[(''Phone'', Text ''491'')], [(''Phone'', Text '''')], [(''Phone'', Num 492)]]
      ''Phone'' ''Hi'' 5 True))) = Delay 5000
   \<and> filter isDelay (rowEvents 2 (trace (sendMessages_run (\<lambda>d. [])
      (Some (\<lambda>s c m. (Some (Error ''offline''), s))) ()
      [[(''Phone'', Text ''491'')], [(''Phone'', Text '''')], [(''Phone'', Num 492)]]
      ''Phone'' ''Hi'' 5 True))) = []"
proof -
  let ?data = "[[(''Phone'', Text ''491'')], [(''Phone'', Text '''')], [(''Phone'', Num 492)]]"
  have a: "0 < length ?data" by simp
  have b: "2 < length ?data" by simp
  show ?thesis
    using delay_after_attempted_rows [OF a, of "\<lambda>d. []" "Some (\<lambda>s c m. (Some (Error ''offline''), s))" "()" "''Phone''" "''Hi''" 5 True]
      delay_after_attempted_rows [OF b, of "\<lambda>d. []" "Some (\<lambda>s c m. (Some (Error ''offline''), s))" "()" "''Phone''" "''Hi''" 5 True]
    by (simp add: cellAt_def checkPhone_def)
qed

text \<open>
  C2 as stated fails: in a run over three rows of which the middle one has an empty phone
  cell, no suspension follows the middle row, so only one delay occurs instead of two.
\<close>

theorem no_delay_after_ineligible_counterexample:
  "rowEvents 1 (trace (sendMessages_run (\<lambda>d. []) (Some (\<lambda>s c m. (None, s))) ()
      [[(''Phone'', Text ''491'')], [(''Phone'', Text '''')], [(''Phone'', Num 492)]]
      ''Phone'' ''Hi'' 5 True))
     = [Progress \<lparr>current = 2, p_total = 3, p_phone = ''N/A'', p_status = PFailed,
                  p_error = Some ''No phone number''\<rparr>]
   \<and> filter isDelay (map snd (trace (sendMessages_run (\<lambda>d. []) (Some (\<lambda>s c m. (None, s))) ()
      [[(''Phone'', Text ''491'')], [(''Phone'', Text '''')], [(''Phone'', Num 492)]]
      ''Phone'' ''Hi'' 5 True))) = [Delay 5000]"
proof -
  have n: "[0..<3] = [0, 1, 2]"
    by (simp add: upt_rec)
  show ?thesis
    by (simp add: sendMessages_run_stateAt stateAt_def Let_def n rowEvents_def rowEvs_def
        rowStep_def cellAt_def checkPhone_def notify_def sendMessage_Some)
qed

lemma untag_concat:
  "map snd (concat (map (\<lambda>j. map (Pair j) (f j)) [0..<n])) = concat (map f [0..<n])"
  by (induction n) (simp_all add: comp_def)

lemma run_events:
  "map snd (trace (sendMessages_run loc cl s0 data pc tpl dl cb))
   = concat (map (rowEvs loc cl data pc tpl dl cb s0) [0..<length data])"
  by (simp add: sendMessages_run_stateAt stateAt_def Let_def untag_concat)

lemma rowStep_no_client:
  "rowStep loc None data pc tpl dl cb i s =
     (case checkPhone (cellAt (data ! i) pc) of
        None \<Rightarrow>
          (\<lparr>d_index = i, d_phone = ''N/A'', d_status = Failed, d_error = Some ''No phone number''\<rparr>,
           notify cb \<lparr>current = i + 1, p_total = length data, p_phone = ''N/A'',
                      p_status = PFailed, p_error = Some ''No phone number''\<rparr>,
           s)
      | Some pv \<Rightarrow>
          (\<lparr>d_index = i, d_phone = phoneToString pv, d_status = Failed,
            d_error = Some ''WhatsApp client not initialized''\<rparr>,
           [FormatMessage (formatMessage loc tpl (data ! i))]
           @ notify cb \<lparr>current = i + 1, p_total = length data, p_phone = phoneToString pv,
                        p_status = PSending, p_error = None\<rparr>
           @ [SendMessage pv (formatMessage loc tpl (data ! i))]
           @ notify cb \<lparr>current = i + 1, p_total = length data, p_phone = phoneToString pv,
                        p_status = PFailed, p_error = Some ''WhatsApp client not initialized''\<rparr>
           @ (if int i < int (length data) - 1 then [Delay (dl * 1000)] else []),
           s))"
  by (simp add: rowStep_def sendMessage_None Let_def split: option.splits)

lemma countStatus_none: "(\<And>d. d \<in> set ds \<Longrightarrow> d_status d \<noteq> x) \<Longrightarrow> countStatus x ds = 0"
  by (simp add: countStatus_def filter_empty_conv)

text \<open>
  C3, as amended. When the client is not initialized, \<open>sendMessages\<close> does not fail: it
  returns its result, with no row counted as success and every row counted as failed. Every
  row that passes the phone check is still rendered and handed to \<open>sendMessage\<close>, which
  reports \<open>WhatsApp client not initialized\<close> as that row's error; no call of the client is made.
\<close>

theorem uninitialized_client_fails_rows:
  assumes "i < length data"
  shows "success (sendMessages loc None s0 data pc tpl dl cb) = 0
         \<and> failed (sendMessages loc None s0 data pc tpl dl cb) = length data
         \<and> details (sendMessages loc None s0 data pc tpl dl cb) ! i =
             (case checkPhone (cellAt (data ! i) pc) of
                None \<Rightarrow> \<lparr>d_index = i, d_phone = ''N/A'', d_status = Failed,
                          d_error = Some ''No phone number''\<rparr>
              | Some pv \<Rightarrow> \<lparr>d_index = i, d_phone = phoneToString pv, d_status = Failed,
                             d_error = Some ''WhatsApp client not initialized''\<rparr>)
         \<and> filter isSendMessage (rowEvents i (trace (sendMessages_run loc None s0 data pc tpl dl cb))) =
             (case checkPhone (cellAt (data ! i) pc) of
                None \<Rightarrow> []
              | Some pv \<Rightarrow> [SendMessage pv (formatMessage loc tpl (data ! i))])
         \<and> filter isClientSend (map snd (trace (sendMessages_run loc None s0 data pc tpl dl cb))) = []"
proof -
  let ?r = "results (sendMessages_run loc None s0 data pc tpl dl cb)"
  have st: "d_status (rowDetail loc None data pc tpl dl cb s0 j) = Failed" for j
    by (simp add: rowDetail_def rowStep_no_client split: option.splits)
  have "countStatus Success (details ?r) = 0"
    by (rule countStatus_none) (auto simp: run_details st)
  then have s0: "success ?r = 0"
    by (simp only: run_counts)
  have "success ?r + failed ?r = length (details ?r)"
    by (simp only: run_counts countStatus_total)
  then have f: "failed ?r = length data"
    using s0 by (simp add: run_details)
  have d: "details ?r ! i =
             (case checkPhone (cellAt (data ! i) pc) of
                None \<Rightarrow> \<lparr>d_index = i, d_phone = ''N/A'', d_status = Failed,
                          d_error = Some ''No phone number''\<rparr>
              | Some pv \<Rightarrow> \<lparr>d_index = i, d_phone = phoneToString pv, d_status = Failed,
                             d_error = Some ''WhatsApp client not initialized''\<rparr>)"
    using assms by (simp add: run_detail_nth rowDetail_def rowStep_no_client split: option.splits)
  have a: "filter isSendMessage (rowEvents i (trace (sendMessages_run loc None s0 data pc tpl dl cb))) =
             (case checkPhone (cellAt (data ! i) pc) of
                None \<Rightarrow> []
              | Some pv \<Rightarrow> [SendMessage pv (formatMessage loc tpl (data ! i))])"
    using assms
    by (simp add: run_rowEvents rowEvs_def rowStep_no_client notify_filters split: option.splits)
  have "filter isClientSend (rowEvs loc None data pc tpl dl cb s0 j) = []" for j
    by (simp add: rowEvs_def rowStep_no_client notify_filters split: option.splits)
  then have c: "filter isClientSend (map snd (trace (sendMessages_run loc None s0 data pc tpl dl cb))) = []"
    by (simp add: run_events filter_concat comp_def)
  show ?thesis
    using s0 f d a c by (simp add: sendMessages_def)
qed

text \<open>The amended C3 at a run of two rows without a client.\<close>

theorem uninitialized_client_fails_rows_witness:
  "success (sendMessages (\<lambda>d. []) None () [[(''Phone'', Text ''491'')], [(''Name'', Text ''Bob'')]]
      ''Phone'' ''Hi'' 5 True) = 0
   \<and> failed (sendMessages (\<lambda>d. []) None () [[(''Phone'', Text ''491'')], [(''Name'', Text ''Bob'')]]
      ''Phone'' ''Hi'' 5 True) = 2
   \<and> details (sendMessages (\<lambda>d. []) None () [[(''Phone'', Text ''491'')], [(''Name'', Text ''Bob'')]]
      ''Phone'' ''Hi'' 5 True) ! 1 =
      \<lparr>d_index = 1, d_phone = ''N/A'', d_status = Failed, d_error = Some ''No phone number''\<rparr>"
proof -
  let ?data = "[[(''Phone'', Text ''491'')], [(''Name'', Text ''Bob'')]]"
  have a: "1 < length ?data" by simp
  show ?thesis
    using uninitialized_client_fails_rows [OF a, of "\<lambda>d. []" "()" "''Phone''" "''Hi''" 5 True]
    by (simp add: cellAt_def checkPhone_def)
qed

text \<open>
  C3 as stated fails: with no client and one row with a phone value, the call returns a
  result; the row is rendered and handed to \<open>sendMessage\<close>, and is recorded as failed.
\<close>

theorem uninitialized_client_returns_counterexample:
  "sendMessages (\<lambda>d. []) None () [[(''Phone'', Text ''491'')]] ''Phone'' ''Hi'' 5 True
     = \<lparr>total_rows = 1, success = 0, failed = 1,
        details = [\<lparr>d_index = 0, d_phone = ''491'', d_status = Failed,
                    d_error = Some ''WhatsApp client not initialized''\<rparr>]\<rparr>
   \<and> map snd (trace (sendMessages_run (\<lambda>d. []) None () [[(''Phone'', Text ''491'')]]
        ''Phone'' ''Hi'' 5 True))
     = [FormatMessage ''Hi'',
        Progress \<lparr>current = 1, p_total = 1, p_phone = ''491'', p_status = PSending, p_error = None\<rparr>,
        SendMessage (PString ''491'') ''Hi'',
        Progress \<lparr>current = 1, p_total = 1, p_phone = ''491'', p_status = PFailed,
                   p_error = Some ''WhatsApp client not initialized''\<rparr>]"
  by (simp add: sendMessages_def sendMessages_run_stateAt stateAt_def Let_def rowEvs_def
      rowDetail_def rowStep_no_client cellAt_def checkPhone_def notify_def countStatus_def
      formatMessage_def substituteColumn_def split_str_def placeholder_def)







lemma progressOf_append: "progressOf (xs @ ys) = progressOf xs @ progressOf ys"
  by (induction xs rule: progressOf.induct) simp_all

lemma progressOf_concat: "progressOf (concat xss) = concat (map progressOf xss)"
  by (induction xss) (simp_all add: progressOf_append)

lemma progressOf_notify: "progressOf (notify cb p) = (if cb then [p] else [])"
  by (simp add: notify_def)

lemma sendMessage_no_progress:
  assumes "sendMessage cl s pv m = (r, s', evs)"
  shows "progressOf evs = []"
  using assms
  by (cases cl) (auto simp: sendMessage_None sendMessage_Some split: prod.splits option.splits)

lemma progressOf_rowEvs:
  "progressOf (rowEvs loc cl data pc tpl dl cb s0 i) =
     (case checkPhone (cellAt (data ! i) pc) of
        None \<Rightarrow>
          (if cb then [\<lparr>current = i + 1, p_total = length data, p_phone = ''N/A'',
                        p_status = PFailed, p_error = Some ''No phone number''\<rparr>] else [])
      | Some pv \<Rightarrow>
          (if cb then
             [\<lparr>current = i + 1, p_total = length data, p_phone = phoneToString pv,
               p_status = PSending, p_error = None\<rparr>,
              \<lparr>current = i + 1, p_total = length data, p_phone = phoneToString pv,
               p_status = (if d_status (rowDetail loc cl data pc tpl dl cb s0 i) = Success
                           then PSuccess else PFailed),
               p_error = d_error (rowDetail loc cl data pc tpl dl cb s0 i)\<rparr>]
           else []))"
proof (cases "checkPhone (cellAt (data ! i) pc)")
  case None
  then show ?thesis
    by (simp add: rowEvs_def rowStep_ineligible progressOf_notify)
next
  case (Some pv)
  let ?s = "connAt loc cl data pc tpl dl cb s0 i"
  obtain result s' evs where sm:
    "sendMessage cl ?s pv (formatMessage loc tpl (data ! i)) = (result, s', evs)"
    by (cases "sendMessage cl ?s pv (formatMessage loc tpl (data ! i))") auto
  have rd: "rowDetail loc cl data pc tpl dl cb s0 i =
      \<lparr>d_index = i, d_phone = phoneToString pv, d_status = m_status result,
        d_error = (if m_status result = Success then None else m_error result)\<rparr>"
    by (simp add: rowDetail_def rowStep_eligible [OF Some sm])
  have re: "progressOf (rowEvs loc cl data pc tpl dl cb s0 i) =
      progressOf (notify cb \<lparr>current = i + 1, p_total = length data, p_phone = phoneToString pv,
                   p_status = PSending, p_error = None\<rparr>)
      @ progressOf (notify cb \<lparr>current = i + 1, p_total = length data, p_phone = phoneToString pv,
                   p_status = (if m_status result = Success then PSuccess else PFailed),
                   p_error = (if m_status result = Success then None else m_error result)\<rparr>)"
    by (simp add: rowEvs_def rowStep_eligible [OF Some sm] progressOf_append
        sendMessage_no_progress [OF sm])
  show ?thesis
    unfolding rd re using Some by (simp add: progressOf_notify)
qed

lemma progress_current:
  "p \<in> set (progressOf (rowEvs loc cl data pc tpl dl cb s0 j)) \<Longrightarrow> current p = j + 1"
  by (auto simp: progressOf_rowEvs split: option.splits if_splits)

lemma sorted_all_eq: "(\<And>x. x \<in> set xs \<Longrightarrow> f x = (c::nat)) \<Longrightarrow> sorted (map f xs)"
  by (induction xs) auto

lemma concat_rows_sorted:
  assumes "\<And>j p. p \<in> set (g j) \<Longrightarrow> current p = j + 1"
  shows "sorted (map current (concat (map g [0..<n])))"
proof (induction n)
  case 0
  then show ?case by simp
next
  case (Suc n)
  have "\<forall>x \<in> set (concat (map g [0..<n])). \<forall>y \<in> set (g n). current x \<le> current y"
    using assms by fastforce
  moreover have "sorted (map current (g n))"
    using assms by (intro sorted_all_eq [of _ _ "n + 1"]) auto
  ultimately show ?case
    using Suc by (auto simp: sorted_append)
qed

lemma concat_rows_filter:
  assumes "\<And>j p. p \<in> set (g j) \<Longrightarrow> current p = j + 1"
  shows "filter (\<lambda>p. current p = i + 1) (concat (map g [0..<n])) = (if i < n then g i else [])"
proof (induction n)
  case 0
  then show ?case by simp
next
  case (Suc n)
  have "filter (\<lambda>p. current p = i + 1) (g n) = (if i = n then g n else [])"
    using assms by (auto simp: filter_empty_conv intro: filter_True)
  then show ?case
    using Suc by auto
qed

text \<open>
  C8. In every run, the progress notifications come in the order of the rows (their
  positions never decrease along the run), so all notifications of a row come before those
  of the next one; the notifications of a row that passes the phone check are its
  \<open>sending\<close> notification followed by its terminal \<open>success\<close> or \<open>failed\<close> one, those of a
  row that does not are the single \<open>failed\<close> one (none at all when no callback was given);
  and the details carry the row indices 0, 1, ..., n - 1 in this order.
\<close>

theorem notifications_in_row_order:
  assumes "i < length data"
  shows "sorted (map current (progressOf (map snd (trace (sendMessages_run loc cl s0 data pc tpl dl cb)))))
         \<and> filter (\<lambda>p. current p = i + 1)
              (progressOf (map snd (trace (sendMessages_run loc cl s0 data pc tpl dl cb))))
             = progressOf (rowEvents i (trace (sendMessages_run loc cl s0 data pc tpl dl cb)))
         \<and> progressOf (rowEvents i (trace (sendMessages_run loc cl s0 data pc tpl dl cb))) =
             (case checkPhone (cellAt (data ! i) pc) of
                None \<Rightarrow>
                  (if cb then [\<lparr>current = i + 1, p_total = length data, p_phone = ''N/A'',
                                p_status = PFailed, p_error = Some ''No phone number''\<rparr>] else [])
              | Some pv \<Rightarrow>
                  (if cb then
                     [\<lparr>current = i + 1, p_total = length data, p_phone = phoneToString pv,
                       p_status = PSending, p_error = None\<rparr>,
                      \<lparr>current = i + 1, p_total = length data, p_phone = phoneToString pv,
                       p_status = (if d_status (details (sendMessages loc cl s0 data pc tpl dl cb) ! i) = Success
                                   then PSuccess else PFailed),
                       p_error = d_error (details (sendMessages loc cl s0 data pc tpl dl cb) ! i)\<rparr>]
                   else []))
         \<and> map d_index (details (sendMessages loc cl s0 data pc tpl dl cb)) = [0..<length data]"
proof -
  let ?g = "\<lambda>j. progressOf (rowEvs loc cl data pc tpl dl cb s0 j)"
  have all: "progressOf (map snd (trace (sendMessages_run loc cl s0 data pc tpl dl cb)))
             = concat (map ?g [0..<length data])"
    by (simp add: run_events progressOf_concat comp_def)
  have cur: "\<And>j p. p \<in> set (?g j) \<Longrightarrow> current p = j + 1"
    by (rule progress_current)
  have a: "sorted (map current (progressOf (map snd (trace (sendMessages_run loc cl s0 data pc tpl dl cb)))))"
    unfolding all using cur by (rule concat_rows_sorted)
  have "filter (\<lambda>p. current p = i + 1) (concat (map ?g [0..<length data]))
        = (if i < length data then ?g i else [])"
    using cur by (rule concat_rows_filter)
  then have b: "filter (\<lambda>p. current p = i + 1)
              (progressOf (map snd (trace (sendMessages_run loc cl s0 data pc tpl dl cb))))
             = progressOf (rowEvents i (trace (sendMessages_run loc cl s0 data pc tpl dl cb)))"
    using assms by (simp add: all run_rowEvents)
  have c: "progressOf (rowEvents i (trace (sendMessages_run loc cl s0 data pc tpl dl cb))) =
             (case checkPhone (cellAt (data ! i) pc) of
                None \<Rightarrow>
                  (if cb then [\<lparr>current = i + 1, p_total = length data, p_phone = ''N/A'',
                                p_status = PFailed, p_error = Some ''No phone number''\<rparr>] else [])
              | Some pv \<Rightarrow>
                  (if cb then
                     [\<lparr>current = i + 1, p_total = length data, p_phone = phoneToString pv,
                       p_status = PSending, p_error = None\<rparr>,
                      \<lparr>current = i + 1, p_total = length data, p_phone = phoneToString pv,
                       p_status = (if d_status (details (sendMessages loc cl s0 data pc tpl dl cb) ! i) = Success
                                   then PSuccess else PFailed),
                       p_error = d_error (details (sendMessages loc cl s0 data pc tpl dl cb) ! i)\<rparr>]
                   else []))"
    using assms by (simp only: run_rowEvents progressOf_rowEvs sendMessages_def run_detail_nth)
  have d: "map d_index (details (sendMessages loc cl s0 data pc tpl dl cb)) = [0..<length data]"
    by (simp add: sendMessages_def run_details rowDetail_def rowStep_index comp_def)
  show ?thesis
    using a b c d by blast
qed

text \<open>
  C8 at a run of two rows, the first accepted by the client and the second without a phone
  value: the first row's notifications are \<open>sending\<close> then \<open>success\<close>.
\<close>

theorem notifications_in_row_order_witness:
  "sorted (map current (progressOf (map snd (trace (sendMessages_run (\<lambda>d. [])
       (Some (\<lambda>s c m. (None, s))) (0::nat) [[(''Phone'', Text ''491'')], [(''Name'', Text ''Bob'')]]
       ''Phone'' ''Hi'' 5 True)))))
   \<and> filter (\<lambda>p. current p = 1) (progressOf (map snd (trace (sendMessages_run (\<lambda>d. [])
       (Some (\<lambda>s c m. (None, s))) (0::nat) [[(''Phone'', Text ''491'')], [(''Name'', Text ''Bob'')]]
       ''Phone'' ''Hi'' 5 True))))
      = [\<lparr>current = 1, p_total = 2, p_phone = ''491'', p_status = PSending, p_error = None\<rparr>,
         \<lparr>current = 1, p_total = 2, p_phone = ''491'', p_status = PSuccess, p_error = None\<rparr>]
   \<and> map d_index (details (sendMessages (\<lambda>d. [])
       (Some (\<lambda>s c m. (None, s))) (0::nat) [[(''Phone'', Text ''491'')], [(''Name'', Text ''Bob'')]]
       ''Phone'' ''Hi'' 5 True)) = [0, 1]"
proof -
  let ?data = "[[(''Phone'', Text ''491'')], [(''Name'', Text ''Bob'')]]"
  have a: "0 < length ?data" by simp
  have n: "[0..<2] = [0, 1]"
    by (simp add: upt_rec)
  have d0: "details (sendMessages (\<lambda>d. []) (Some (\<lambda>s c m. (None, s))) (0::nat) ?data ''Phone'' ''Hi'' 5 True) ! 0
      = \<lparr>d_index = 0, d_phone = ''491'', d_status = Success, d_error = None\<rparr>"
    by (simp add: sendMessages_def run_detail_nth rowDetail_def rowStep_def cellAt_def
        checkPhone_def sendMessage_Some Let_def)
  show ?thesis
    using notifications_in_row_order [OF a, of "\<lambda>d. []" "Some (\<lambda>s c m. (None, s))" "0::nat" "''Phone''" "''Hi''" 5 True]
    by (simp add: d0 n cellAt_def checkPhone_def)
qed

end
